theory Spec2Isabelle
  imports Complex_Main "HOL-Library.Sublist"
begin

section \<open>Vajra: exceptions and results\<close>

text \<open>
  The program is \<open>vajra.py\<close>.  Python exceptions are values: every library call that can
  raise returns \<open>exn + 'a\<close>, with \<open>Inl\<close> the exception.  All constructors are subclasses of
  Python's \<open>Exception\<close>, so a handler \<open>except Exception\<close> catches each of them, and a handler
  \<open>except (psutil.NoSuchProcess, psutil.AccessDenied)\<close> catches the first two only.
  Times and percentages are Python floats; they are modelled by \<open>real\<close>, which keeps the
  comparisons, the signs and the branch structure of the source and ignores rounding.
\<close>

datatype exn = NoSuchProcess | AccessDenied | PermissionError | OtherException string

type_synonym pid = nat

section \<open>CacheCleaner\<close>

text \<open>
  What the operating system answers during one call of \<open>CacheCleaner.clean\<close>:
  \<open>gc.collect()\<close>; loading \<open>ctypes.windll.kernel32\<close> and \<open>psapi\<close>; \<open>psutil.pids()\<close>;
  \<open>OpenProcess\<close> (a handle, 0 for NULL), \<open>EmptyWorkingSet\<close> and \<open>CloseHandle\<close>;
  \<open>ctypes.CDLL("libc.so.6")\<close> together with \<open>hasattr(libc, "malloc_trim")\<close>;
  \<open>libc.malloc_trim(0)\<close>; and the exit status of \<open>os.system("purge ...")\<close>.
\<close>

record cache_cleaner =
  os_type :: string

record clean_env =
  gc_collect :: "exn + unit"
  windll :: "exn + unit"
  win_pids :: "exn + pid list"
  open_process :: "pid \<Rightarrow> exn + nat"
  empty_working_set :: "nat \<Rightarrow> exn + unit"
  close_handle :: "nat \<Rightarrow> exn + unit"
  cdll_libc :: "exn + bool"
  malloc_trim :: "exn + unit"
  os_system_purge :: "exn + int"

text \<open>The observable steps of one \<open>clean\<close> call, in the order they happen.\<close>

datatype clean_event =
  LogInfo string
| LogTrimmed nat
| LogError exn
| GcCollect
| WindowsTrim
| LinuxTrim
| MacTrim

text \<open>
  The body of the \<open>try\<close> inside the loop of \<open>_windows_trim\<close>: the process counts when a
  handle was obtained and both calls on it returned; any exception is swallowed
  (\<open>except Exception: pass\<close>).
\<close>

definition trim_one :: "clean_env \<Rightarrow> pid \<Rightarrow> bool" where
  "trim_one env p =
     (case open_process env p of
        Inl e \<Rightarrow> False
      | Inr h \<Rightarrow>
          if h \<noteq> 0 then
            (case empty_working_set env h of
               Inl e \<Rightarrow> False
             | Inr u \<Rightarrow> (case close_handle env h of Inl e \<Rightarrow> False | Inr v \<Rightarrow> True))
          else False)"

fun trim_count :: "clean_env \<Rightarrow> pid list \<Rightarrow> nat \<Rightarrow> nat" where
  "trim_count env [] count = count"
| "trim_count env (p # ps) count =
     trim_count env ps (if trim_one env p then count + 1 else count)"

definition windows_trim :: "clean_env \<Rightarrow> (exn + bool) \<times> clean_event list" where
  "windows_trim env =
     (case windll env of
        Inl e \<Rightarrow> (Inl e, [])
      | Inr u \<Rightarrow>
          (case win_pids env of
             Inl e \<Rightarrow> (Inl e, [])
           | Inr ps \<Rightarrow>
               (let count = trim_count env ps 0
                in if count > 0 then (Inr True, [LogTrimmed count]) else (Inr False, []))))"

definition linux_trim :: "clean_env \<Rightarrow> (exn + bool) \<times> clean_event list" where
  "linux_trim env =
     (case cdll_libc env of
        Inl e \<Rightarrow> (Inr False, [])
      | Inr has_malloc_trim \<Rightarrow>
          if has_malloc_trim then
            (case malloc_trim env of
               Inl e \<Rightarrow> (Inr False, [])
             | Inr u \<Rightarrow> (Inr True, [LogInfo ''Linux malloc_trim executed'']))
          else (Inr False, []))"

definition mac_trim :: "clean_env \<Rightarrow> (exn + bool) \<times> clean_event list" where
  "mac_trim env =
     (case os_system_purge env of
        Inl e \<Rightarrow> (Inr False, [])
      | Inr status \<Rightarrow> (Inr (status = 0), []))"

text \<open>
  The platform dispatch inside the \<open>try\<close> of \<open>clean\<close>, entered with \<open>success = True\<close>:
  \<open>success |= self._windows_trim()\<close> and its two siblings.  The result is the new value of
  \<open>success\<close>, or the exception that left the block.
\<close>

definition platform_step ::
  "cache_cleaner \<Rightarrow> clean_env \<Rightarrow> (exn + bool) \<times> clean_event list" where
  "platform_step self env =
     (if os_type self = ''windows'' then
        (case windows_trim env of
           (Inl e, evs) \<Rightarrow> (Inl e, WindowsTrim # evs)
         | (Inr b, evs) \<Rightarrow> (Inr (True \<or> b), WindowsTrim # evs))
      else if os_type self = ''linux'' then
        (case linux_trim env of
           (Inl e, evs) \<Rightarrow> (Inl e, LinuxTrim # evs)
         | (Inr b, evs) \<Rightarrow> (Inr (True \<or> b), LinuxTrim # evs))
      else if os_type self = ''darwin'' then
        (case mac_trim env of
           (Inl e, evs) \<Rightarrow> (Inl e, MacTrim # evs)
         | (Inr b, evs) \<Rightarrow> (Inr (True \<or> b), MacTrim # evs))
      else (Inr True, []))"

text \<open>
  \<open>CacheCleaner.clean\<close>.  \<open>success\<close> starts as \<open>False\<close>; an exception of \<open>gc.collect()\<close>
  leaves it \<open>False\<close>, an exception of the platform step leaves it \<open>True\<close> (it was assigned
  before the dispatch); either exception is logged by the handler and \<open>success\<close> is
  returned.  The result type still has the \<open>Inl\<close> branch: that \<open>clean\<close> never takes it is
  a theorem, not a choice of type.
\<close>

definition clean :: "cache_cleaner \<Rightarrow> clean_env \<Rightarrow> (exn + bool) \<times> clean_event list" where
  "clean self env =
     (let start = [LogInfo ''RAM cleanup triggered (best-effort)'', GcCollect] in
      case gc_collect env of
        Inl e \<Rightarrow> (Inr False, start @ [LogError e])
      | Inr u \<Rightarrow>
          (case platform_step self env of
             (Inl e, evs) \<Rightarrow> (Inr True, start @ evs @ [LogError e])
           | (Inr success, evs) \<Rightarrow> (Inr success, start @ evs)))"

section \<open>AlertManager\<close>

text \<open>
  \<open>self.cooldown\<close> and \<open>self.thresholds\<close> are assigned once in \<open>__init__\<close> and never
  written again; \<open>self.last_trigger\<close> is the dictionary that \<open>check\<close> updates.
\<close>

definition cooldown :: real where
  "cooldown = 60"

definition threshold_cpu :: real where
  "threshold_cpu = 85"

definition threshold_memory :: real where
  "threshold_memory = 90"

record alert_manager =
  cleaner :: cache_cleaner
  last_trigger :: "string \<rightharpoonup> real"

definition init_alert_manager :: "cache_cleaner \<Rightarrow> alert_manager" where
  "init_alert_manager c = \<lparr>cleaner = c, last_trigger = Map.empty\<rparr>"

text \<open>The two fields of the metrics dictionary that \<open>check\<close> reads.\<close>

record metrics =
  cpu_pct :: real
  memory_pct :: real

text \<open>
  The messages \<open>check\<close> builds.  The source formats each as a string; \<open>render\<close> gives
  that string, with \<open>fmt\<close> the conversion of a float inside an f-string.
\<close>

datatype message =
  HighCpu real
| HighMemory real
| MemoryDetected real
| CleanupCompleted
| CleanupSkipped

fun render :: "(real \<Rightarrow> string) \<Rightarrow> message \<Rightarrow> string" where
  "render fmt (HighCpu p) = ''High CPU usage: '' @ fmt p @ ''%''"
| "render fmt (HighMemory p) = ''High Memory usage: '' @ fmt p @ ''%''"
| "render fmt (MemoryDetected p) = ''High memory ('' @ fmt p @ ''%) detected. Cleaning RAM...''"
| "render fmt CleanupCompleted = ''RAM cleanup completed (best-effort)''"
| "render fmt CleanupSkipped = ''RAM cleanup skipped (OS restricted)''"

text \<open>
  The effects of one \<open>check\<close> call in program order: the write to \<open>last_trigger\<close>, each
  \<open>ui_callback(...)\<close>, the call \<open>self.cleaner.clean()\<close> with its own steps, and each
  \<open>alerts.append(...)\<close>.
\<close>

datatype check_event =
  SetLastTrigger string real
| UiCallback message
| CleanerClean "clean_event list"
| AppendAlert message

text \<open>\<open>self.last_trigger.get("memory", 0)\<close>.\<close>

definition last_memory_trigger :: "alert_manager \<Rightarrow> real" where
  "last_memory_trigger am = (case last_trigger am ''memory'' of None \<Rightarrow> 0 | Some t \<Rightarrow> t)"

text \<open>
  The memory branch of \<open>check\<close> once both conditions hold.  \<open>has_cb\<close> says whether a
  \<open>ui_callback\<close> was passed.  \<open>check\<close> has no handler of its own, so an exception of
  \<open>clean\<close> would leave \<open>check\<close> after the write and the first notification.
\<close>

definition memory_trigger ::
  "bool \<Rightarrow> clean_env \<Rightarrow> real \<Rightarrow> metrics \<Rightarrow> alert_manager \<Rightarrow> message list \<Rightarrow>
   (exn + message list) \<times> alert_manager \<times> check_event list" where
  "memory_trigger has_cb env now m am alerts =
     (let am1 = am\<lparr>last_trigger := (last_trigger am)(''memory'' \<mapsto> now)\<rparr>;
          ev1 = [SetLastTrigger ''memory'' now]
                @ (if has_cb then [UiCallback (MemoryDetected (memory_pct m))] else [])
      in case clean (cleaner am) env of
           (Inl e, cevs) \<Rightarrow> (Inl e, am1, ev1 @ [CleanerClean cevs])
         | (Inr cleaned, cevs) \<Rightarrow>
             (Inr (alerts @ [HighMemory (memory_pct m)]), am1,
              ev1 @ [CleanerClean cevs]
              @ (if has_cb
                 then [UiCallback (if cleaned then CleanupCompleted else CleanupSkipped)]
                 else [])
              @ [AppendAlert (HighMemory (memory_pct m))]))"

text \<open>\<open>AlertManager.check\<close>; \<open>now\<close> is the value of \<open>time.time()\<close>.\<close>

definition check ::
  "bool \<Rightarrow> clean_env \<Rightarrow> real \<Rightarrow> metrics \<Rightarrow> alert_manager \<Rightarrow>
   (exn + message list) \<times> alert_manager \<times> check_event list" where
  "check has_cb env now m am =
     (let (alerts, ev0) =
            (if cpu_pct m > threshold_cpu
             then ([HighCpu (cpu_pct m)], [AppendAlert (HighCpu (cpu_pct m))])
             else ([], []))
      in if memory_pct m > threshold_memory then
           (if now - last_memory_trigger am > cooldown then
              (case memory_trigger has_cb env now m am alerts of
                 (r, am1, ev1) \<Rightarrow> (r, am1, ev0 @ ev1))
            else (Inr alerts, am, ev0))
         else (Inr alerts, am, ev0))"

text \<open>
  The driver loop of \<open>start_monitor\<close>, as far as the alert manager goes: one \<open>check\<close>
  per cycle, each with its own clock reading, metrics and operating-system answers.  An
  exception leaving \<open>check\<close> would end the loop.
\<close>

fun run_checks ::
  "bool \<Rightarrow> alert_manager \<Rightarrow> (real \<times> metrics \<times> clean_env) list \<Rightarrow>
   alert_manager \<times> check_event list" where
  "run_checks has_cb am [] = (am, [])"
| "run_checks has_cb am ((now, m, env) # cs) =
     (case check has_cb env now m am of
        (Inl e, am1, evs) \<Rightarrow> (am1, evs)
      | (Inr alerts, am1, evs) \<Rightarrow>
          (case run_checks has_cb am1 cs of (am2, evs2) \<Rightarrow> (am2, evs @ evs2)))"

fun is_reclaim :: "check_event \<Rightarrow> bool" where
  "is_reclaim (CleanerClean cevs) = True"
| "is_reclaim ev = False"

definition reclaim_count :: "check_event list \<Rightarrow> nat" where
  "reclaim_count evs = length (filter is_reclaim evs)"

text \<open>Concrete operating-system answers used in the examples below.\<close>

definition quiet_env :: clean_env where
  "quiet_env =
     \<lparr>gc_collect = Inr (), windll = Inr (), win_pids = Inr [],
      open_process = (\<lambda>p. Inr 0), empty_working_set = (\<lambda>h. Inr ()),
      close_handle = (\<lambda>h. Inr ()), cdll_libc = Inr True, malloc_trim = Inr (),
      os_system_purge = Inr 0\<rparr>"

definition pids_failing_env :: clean_env where
  "pids_failing_env = quiet_env\<lparr>win_pids := Inl (OtherException ''OSError'')\<rparr>"

definition gc_failing_env :: clean_env where
  "gc_failing_env = quiet_env\<lparr>gc_collect := Inl (OtherException ''MemoryError'')\<rparr>"

definition hot_metrics :: metrics where
  "hot_metrics = \<lparr>cpu_pct = 10, memory_pct = 95\<rparr>"

definition busy_metrics :: metrics where
  "busy_metrics = \<lparr>cpu_pct = 97, memory_pct = 40\<rparr>"

definition platform_events :: "clean_event set" where
  "platform_events = {WindowsTrim, LinuxTrim, MacTrim}"

definition freebsd_cleaner :: cache_cleaner where
  "freebsd_cleaner = \<lparr>os_type = ''freebsd''\<rparr>"

definition windows_cleaner :: cache_cleaner where
  "windows_cleaner = \<lparr>os_type = ''windows''\<rparr>"

definition linux_cleaner :: cache_cleaner where
  "linux_cleaner = \<lparr>os_type = ''linux''\<rparr>"

section \<open>MetricsCollector\<close>

text \<open>
  \<open>psutil.net_io_counters()\<close>: the two byte counters \<open>collect\<close> reads (Python integers).
\<close>

record net_counters =
  bytes_sent :: int
  bytes_recv :: int

text \<open>
  A \<open>psutil.Process\<close> object: its pid (\<open>p.info['pid']\<close>) and the identity of the Python
  object.  The object carries the accounting baseline of \<open>cpu_percent\<close>, so two objects
  with the same pid and different identities are different processes' accounts.
\<close>

record proc =
  proc_pid :: pid
  proc_obj :: nat

text \<open>The dictionary appended to \<open>proc_list\<close>.\<close>

record proc_info =
  pi_pid :: pid
  pi_name :: string
  pi_cpu_percent :: real
  pi_memory_percent :: real

text \<open>The calls into psutil's process table that one \<open>collect\<close> makes, in order.\<close>

datatype call =
  PidsCall
| ProcessIterCall
| CpuPercentCall proc
| MemoryPercentCall proc
| NameCall proc


text \<open>
  What the operating system answers during one \<open>collect\<close>: \<open>time.time()\<close>, the network
  counters, \<open>psutil.pids()\<close>, the objects \<open>psutil.process_iter\<close> yields and the exception
  (if any) that ends the iteration after them, and the three per-process queries.  A
  query's answer may depend on the calls made before it (the first \<open>cpu_percent\<close> on an
  object sets its baseline), so each takes the calls so far.  The total CPU and memory
  percentages are read at the end and passed through.
\<close>

record os_env =
  time_now :: real
  net_io_counters :: net_counters
  os_pids :: "exn + pid list"
  os_process_iter :: "proc list"
  os_process_iter_raises :: "exn option"
  p_cpu_percent :: "call list \<Rightarrow> proc \<Rightarrow> exn + real"
  p_memory_percent :: "call list \<Rightarrow> proc \<Rightarrow> exn + real"
  p_name :: "call list \<Rightarrow> proc \<Rightarrow> exn + string"
  os_cpu_percent :: real
  os_memory_percent :: real

record collector =
  last_net :: net_counters
  last_time :: real
  procs :: "pid \<rightharpoonup> proc"
  cached_top_procs :: "proc_info list"
  tick :: nat

text \<open>\<open>MetricsCollector.__init__\<close>, given the counters and the clock read there.\<close>

definition init_collector :: "net_counters \<Rightarrow> real \<Rightarrow> collector" where
  "init_collector net now =
     \<lparr>last_net = net, last_time = now, procs = Map.empty, cached_top_procs = [], tick = 0\<rparr>"

text \<open>
  The fields of the returned dictionary that the model keeps.  The per-core percentages,
  the CPU frequency, the byte totals of memory and the disks are read after the scan and
  are left out.
\<close>

record snapshot =
  snap_cpu_percent :: real
  snap_memory_percent :: real
  net_sent :: real
  net_recv :: real
  top_procs :: "proc_info list"

text \<open>\<open>dt = now - self.last_time; if dt == 0: dt = 0.001\<close>.\<close>

definition elapsed_dt :: "real \<Rightarrow> real \<Rightarrow> real" where
  "elapsed_dt now previous = (let dt = now - previous in if dt = 0 then 0.001 else dt)"

text \<open>\<open>for pid in cached_pids - current_pids: del self.procs[pid]\<close>.\<close>

definition remove_dead :: "(pid \<rightharpoonup> proc) \<Rightarrow> pid list \<Rightarrow> (pid \<rightharpoonup> proc)" where
  "remove_dead ps current_pids =
     (\<lambda>pid. if pid \<in> dom ps - set current_pids then None else ps pid)"

text \<open>
  The state of the scan loop: \<open>self.procs\<close>, \<open>proc_list\<close>, and the calls made so far.
\<close>

record scan_state =
  s_procs :: "pid \<rightharpoonup> proc"
  s_proc_list :: "proc_info list"
  s_calls :: "call list"

text \<open>
  The \<open>with p.oneshot()\<close> block and the append.  The first component is the exception
  that left the block, if any; the state holds what was done before it.
\<close>

definition read_info ::
  "os_env \<Rightarrow> scan_state \<Rightarrow> pid \<Rightarrow> proc \<Rightarrow> exn option \<times> scan_state" where
  "read_info env s pid p =
     (let c1 = s_calls s @ [CpuPercentCall p] in
      case p_cpu_percent env (s_calls s) p of
        Inl e \<Rightarrow> (Some e, s\<lparr>s_calls := c1\<rparr>)
      | Inr p_cpu \<Rightarrow>
          (let c2 = c1 @ [MemoryPercentCall p] in
           case p_memory_percent env c1 p of
             Inl e \<Rightarrow> (Some e, s\<lparr>s_calls := c2\<rparr>)
           | Inr p_mem \<Rightarrow>
               (let c3 = c2 @ [NameCall p] in
                case p_name env c2 p of
                  Inl e \<Rightarrow> (Some e, s\<lparr>s_calls := c3\<rparr>)
                | Inr nm \<Rightarrow>
                    (None,
                     s\<lparr>s_proc_list := s_proc_list s
                          @ [\<lparr>pi_pid = pid, pi_name = nm, pi_cpu_percent = p_cpu,
                              pi_memory_percent = p_mem\<rparr>],
                       s_calls := c3\<rparr>))))"

text \<open>
  The body of the inner \<open>try\<close>.  An untracked pid stores the iterator's object and
  calls \<open>cpu_percent\<close> on it once, dropping the result; a tracked pid takes the stored
  object instead of the iterator's.
\<close>

definition try_body :: "os_env \<Rightarrow> scan_state \<Rightarrow> proc \<Rightarrow> exn option \<times> scan_state" where
  "try_body env s p =
     (let pid = proc_pid p in
      case s_procs s pid of
        None \<Rightarrow>
          (let s1 = s\<lparr>s_procs := (s_procs s)(pid \<mapsto> p),
                       s_calls := s_calls s @ [CpuPercentCall p]\<rparr>
           in case p_cpu_percent env (s_calls s) p of
                Inl e \<Rightarrow> (Some e, s1)
              | Inr discarded \<Rightarrow> read_info env s1 pid p)
      | Some q \<Rightarrow> read_info env s pid q)"

text \<open>
  One iteration with its handler: \<open>NoSuchProcess\<close> and \<open>AccessDenied\<close> drop the pid
  from \<open>self.procs\<close> and go on; any other exception leaves the loop.
\<close>

definition scan_one :: "os_env \<Rightarrow> scan_state \<Rightarrow> proc \<Rightarrow> exn option \<times> scan_state" where
  "scan_one env s p =
     (case try_body env s p of
        (None, s1) \<Rightarrow> (None, s1)
      | (Some e, s1) \<Rightarrow>
          if e = NoSuchProcess \<or> e = AccessDenied
          then (None, s1\<lparr>s_procs := (s_procs s1)(proc_pid p := None)\<rparr>)
          else (Some e, s1))"

fun scan_loop :: "os_env \<Rightarrow> scan_state \<Rightarrow> proc list \<Rightarrow> exn option \<times> scan_state" where
  "scan_loop env s [] = (None, s)"
| "scan_loop env s (p # ps) =
     (case scan_one env s p of
        (None, s1) \<Rightarrow> scan_loop env s1 ps
      | (Some e, s1) \<Rightarrow> (Some e, s1))"

text \<open>\<open>sorted(proc_list, key=lambda x: x['cpu_percent'], reverse=True)[:5]\<close>: a stable
  sort, largest first.\<close>

definition top5 :: "proc_info list \<Rightarrow> proc_info list" where
  "top5 proc_list = take 5 (sort_key (\<lambda>x. - pi_cpu_percent x) proc_list)"

text \<open>
  The start of the scan block after \<open>psutil.pids()\<close> has returned: the dead pids are
  deleted from \<open>self.procs\<close>, then the loop runs over what \<open>process_iter\<close> yields.
\<close>

definition scan_procs ::
  "os_env \<Rightarrow> (pid \<rightharpoonup> proc) \<Rightarrow> pid list \<Rightarrow> exn option \<times> scan_state" where
  "scan_procs env tracked current_pids =
     scan_loop env
       \<lparr>s_procs = remove_dead tracked current_pids, s_proc_list = [],
        s_calls = [PidsCall, ProcessIterCall]\<rparr>
       (os_process_iter env)"

text \<open>
  The block under \<open>if self.tick % 4 == 0\<close>, with its outer handler
  \<open>except Exception: pass\<close>: an exception keeps the cached list, and keeps whatever was
  already written to \<open>self.procs\<close>.  The result is the value of \<open>top_procs\<close>, the
  collector, and the calls made.
\<close>

definition scan :: "os_env \<Rightarrow> collector \<Rightarrow> proc_info list \<times> collector \<times> call list" where
  "scan env st =
     (case os_pids env of
        Inl e \<Rightarrow> (cached_top_procs st, st, [PidsCall])
      | Inr current_pids \<Rightarrow>
          (case scan_procs env (procs st) current_pids of
             (Some e, s) \<Rightarrow> (cached_top_procs st, st\<lparr>procs := s_procs s\<rparr>, s_calls s)
           | (None, s) \<Rightarrow>
               (case os_process_iter_raises env of
                  Some e \<Rightarrow> (cached_top_procs st, st\<lparr>procs := s_procs s\<rparr>, s_calls s)
                | None \<Rightarrow>
                    (top5 (s_proc_list s),
                     st\<lparr>procs := s_procs s, cached_top_procs := top5 (s_proc_list s)\<rparr>,
                     s_calls s))))"

text \<open>\<open>MetricsCollector.collect\<close>.\<close>

definition collect :: "os_env \<Rightarrow> collector \<Rightarrow> snapshot \<times> collector \<times> call list" where
  "collect env st =
     (let now = time_now env;
          net = net_io_counters env;
          dt = elapsed_dt now (last_time st);
          sent_per_sec = real_of_int (bytes_sent net - bytes_sent (last_net st)) / dt;
          recv_per_sec = real_of_int (bytes_recv net - bytes_recv (last_net st)) / dt;
          st1 = st\<lparr>last_net := net, last_time := now, tick := tick st + 1\<rparr>;
          (top, st2, calls) =
             (if tick st1 mod 4 = 0 then scan env st1 else (cached_top_procs st1, st1, []))
      in (\<lparr>snap_cpu_percent = os_cpu_percent env, snap_memory_percent = os_memory_percent env,
           net_sent = sent_per_sec, net_recv = recv_per_sec, top_procs = top\<rparr>,
          st2, calls))"

definition collect_snapshot :: "os_env \<Rightarrow> collector \<Rightarrow> snapshot" where
  "collect_snapshot env st = fst (collect env st)"

definition collect_state :: "os_env \<Rightarrow> collector \<Rightarrow> collector" where
  "collect_state env st = fst (snd (collect env st))"

definition collect_calls :: "os_env \<Rightarrow> collector \<Rightarrow> call list" where
  "collect_calls env st = snd (snd (collect env st))"

text \<open>The collector after a sequence of \<open>collect\<close> calls, and all the calls they made.\<close>

fun collect_all :: "collector \<Rightarrow> os_env list \<Rightarrow> collector" where
  "collect_all st [] = st"
| "collect_all st (env # envs) = collect_all (collect_state env st) envs"


text \<open>
  The rate formula in the words of the specification, for comparison:
  \<open>(current - previous) / max(elapsed, epsilon)\<close> with \<open>epsilon = 0.001\<close>.
\<close>

definition spec_rate :: "int \<Rightarrow> int \<Rightarrow> real \<Rightarrow> real" where
  "spec_rate current previous elapsed = real_of_int (current - previous) / max elapsed 0.001"




text \<open>Concrete collectors and operating-system answers used in the examples below.\<close>

definition old_proc :: proc where
  "old_proc = \<lparr>proc_pid = 42, proc_obj = 1\<rparr>"


definition other_proc :: proc where
  "other_proc = \<lparr>proc_pid = 7, proc_obj = 3\<rparr>"

definition sample_collector :: collector where
  "sample_collector =
     \<lparr>last_net = \<lparr>bytes_sent = 1000, bytes_recv = 5000\<rparr>, last_time = 100,
      procs = [42 \<mapsto> old_proc], cached_top_procs = [], tick = 3\<rparr>"

definition sample_env :: "proc list \<Rightarrow> os_env" where
  "sample_env yielded =
     \<lparr>time_now = 101,
      net_io_counters = \<lparr>bytes_sent = 400, bytes_recv = 5600\<rparr>,
      os_pids = Inr (map proc_pid yielded),
      os_process_iter = yielded,
      os_process_iter_raises = None,
      p_cpu_percent = (\<lambda>calls p. Inr (if CpuPercentCall p \<in> set calls then 25 else 0)),
      p_memory_percent = (\<lambda>calls p. Inr 3),
      p_name = (\<lambda>calls p. Inr ''python''),
      os_cpu_percent = 20,
      os_memory_percent = 50\<rparr>"


definition fast_env :: os_env where
  "fast_env =
     (sample_env [])\<lparr>time_now := 100 + 1 / 2000,
                       net_io_counters := \<lparr>bytes_sent = 1200, bytes_recv = 5000\<rparr>\<rparr>"

section \<open>Properties of CacheCleaner\<close>

lemma platform_step_result:
  "platform_step self env = (Inr b, evs) \<Longrightarrow> b"
  by (auto simp: platform_step_def split: if_splits prod.splits sum.splits)

text \<open>The value \<open>clean\<close> returns is decided by \<open>gc.collect()\<close> alone.\<close>

lemma clean_result: "fst (clean self env) = Inr (\<not> isl (gc_collect env))"
proof (cases "gc_collect env")
  case (Inl e)
  then show ?thesis by (simp add: clean_def)
next
  case gc: (Inr u)
  obtain r evs where ps: "platform_step self env = (r, evs)"
    by (cases "platform_step self env")
  show ?thesis
  proof (cases r)
    case (Inl e)
    with gc ps show ?thesis by (simp add: clean_def)
  next
    case (Inr b)
    with ps have b using platform_step_result by blast
    with Inr gc ps show ?thesis by (simp add: clean_def)
  qed
qed

lemma platform_step_unrecognized:
  "os_type self \<notin> {''windows'', ''linux'', ''darwin''} \<Longrightarrow>
   platform_step self env = (Inr True, [])"
  by (simp add: platform_step_def)

lemma clean_unrecognized:
  "os_type self \<notin> {''windows'', ''linux'', ''darwin''} \<Longrightarrow>
   snd (clean self env) =
     [LogInfo ''RAM cleanup triggered (best-effort)'', GcCollect]
     @ (case gc_collect env of Inl e \<Rightarrow> [LogError e] | Inr u \<Rightarrow> [])"
  by (simp add: clean_def platform_step_unrecognized split: sum.splits)

text \<open>
  C3 (as amended).  \<open>clean\<close> never raises; it returns \<open>False\<close> exactly when
  \<open>gc.collect()\<close> raised; and on a platform that is none of windows, linux and darwin
  no platform-specific step is attempted.  (On such a platform the result is therefore
  \<open>True\<close> whenever \<open>gc.collect()\<close> returns, not \<open>False\<close>.)
\<close>

theorem clean_never_raises:
  "(\<exists>b. fst (clean self env) = Inr b) \<and>
   (fst (clean self env) = Inr False \<longleftrightarrow> isl (gc_collect env)) \<and>
   (os_type self \<notin> {''windows'', ''linux'', ''darwin''} \<longrightarrow>
      set (snd (clean self env)) \<inter> platform_events = {})"
  by (auto simp: clean_result platform_events_def clean_unrecognized split: sum.splits)

theorem clean_never_raises_witness:
  "os_type freebsd_cleaner \<notin> {''windows'', ''linux'', ''darwin''} \<and>
   set (snd (clean freebsd_cleaner gc_failing_env)) \<inter> platform_events = {} \<and>
   fst (clean freebsd_cleaner gc_failing_env) = Inr False \<and>
   isl (gc_collect gc_failing_env)"
  using clean_never_raises [of freebsd_cleaner gc_failing_env]
  by (simp add: freebsd_cleaner_def gc_failing_env_def quiet_env_def)

text \<open>
  C3 as stated fails: on an unrecognized platform with a working \<open>gc.collect()\<close>,
  \<open>clean\<close> returns \<open>True\<close>.
\<close>

theorem clean_unrecognized_returns_true:
  "os_type freebsd_cleaner \<notin> {''windows'', ''linux'', ''darwin''} \<and>
   fst (clean freebsd_cleaner quiet_env) = Inr True"
  by (simp add: clean_def freebsd_cleaner_def quiet_env_def platform_step_def)

section \<open>Properties of AlertManager\<close>

lemma clean_cases:
  obtains evs where "clean self env = (Inr (\<not> isl (gc_collect env)), evs)"
  using clean_result [of self env] by (cases "clean self env") auto

text \<open>The memory branch, once entered, runs to its end: \<open>clean\<close> hands back a boolean.\<close>

lemma memory_trigger_eq:
  "memory_trigger has_cb env now m am alerts =
     (Inr (alerts @ [HighMemory (memory_pct m)]),
      am\<lparr>last_trigger := (last_trigger am)(''memory'' \<mapsto> now)\<rparr>,
      [SetLastTrigger ''memory'' now]
      @ (if has_cb then [UiCallback (MemoryDetected (memory_pct m))] else [])
      @ [CleanerClean (snd (clean (cleaner am) env))]
      @ (if has_cb
         then [UiCallback (if isl (gc_collect env) then CleanupSkipped else CleanupCompleted)]
         else [])
      @ [AppendAlert (HighMemory (memory_pct m))])"
proof -
  obtain evs where c: "clean (cleaner am) env = (Inr (\<not> isl (gc_collect env)), evs)"
    by (rule clean_cases)
  show ?thesis by (simp add: memory_trigger_def c)
qed

lemma check_never_raises: "\<exists>alerts. fst (check has_cb env now m am) = Inr alerts"
  by (simp add: check_def memory_trigger_eq Let_def split: prod.splits)

lemma check_fires:
  assumes "90 < memory_pct m" and "60 < now - last_memory_trigger am"
  shows "check has_cb env now m am =
     (Inr ((if 85 < cpu_pct m then [HighCpu (cpu_pct m)] else []) @ [HighMemory (memory_pct m)]),
      am\<lparr>last_trigger := (last_trigger am)(''memory'' \<mapsto> now)\<rparr>,
      (if 85 < cpu_pct m then [AppendAlert (HighCpu (cpu_pct m))] else [])
      @ [SetLastTrigger ''memory'' now]
      @ (if has_cb then [UiCallback (MemoryDetected (memory_pct m))] else [])
      @ [CleanerClean (snd (clean (cleaner am) env))]
      @ (if has_cb
         then [UiCallback (if isl (gc_collect env) then CleanupSkipped else CleanupCompleted)]
         else [])
      @ [AppendAlert (HighMemory (memory_pct m))])"
  using assms
  by (simp add: check_def memory_trigger_eq threshold_cpu_def threshold_memory_def cooldown_def)

lemma check_silent:
  assumes "now - last_memory_trigger am \<le> 60"
  shows "check has_cb env now m am =
     (Inr (if 85 < cpu_pct m then [HighCpu (cpu_pct m)] else []), am,
      (if 85 < cpu_pct m then [AppendAlert (HighCpu (cpu_pct m))] else []))"
  using assms
  by (simp add: check_def threshold_cpu_def cooldown_def)

lemma reclaim_count_Nil [simp]: "reclaim_count [] = 0"
  by (simp add: reclaim_count_def)

lemma reclaim_count_Cons [simp]:
  "reclaim_count (e # evs) = (if is_reclaim e then 1 else 0) + reclaim_count evs"
  by (simp add: reclaim_count_def)

lemma reclaim_count_append [simp]:
  "reclaim_count (xs @ ys) = reclaim_count xs + reclaim_count ys"
  by (simp add: reclaim_count_def)

lemma check_reclaim_count:
  "reclaim_count (snd (snd (check has_cb env now m am))) =
     (if 90 < memory_pct m \<and> 60 < now - last_memory_trigger am then 1 else 0)"
  by (simp add: check_def memory_trigger_eq threshold_memory_def cooldown_def)

lemma run_checks_Cons:
  "run_checks has_cb am ((now, m, env) # cs) =
     (fst (run_checks has_cb (fst (snd (check has_cb env now m am))) cs),
      snd (snd (check has_cb env now m am))
      @ snd (run_checks has_cb (fst (snd (check has_cb env now m am))) cs))"
proof -
  obtain alerts where "fst (check has_cb env now m am) = Inr alerts"
    using check_never_raises by blast
  then show ?thesis
    by (cases "check has_cb env now m am") (simp split: prod.splits)
qed

lemma run_checks_append:
  "run_checks has_cb am (xs @ ys) =
     (fst (run_checks has_cb (fst (run_checks has_cb am xs)) ys),
      snd (run_checks has_cb am xs)
      @ snd (run_checks has_cb (fst (run_checks has_cb am xs)) ys))"
proof (induction xs arbitrary: am)
  case Nil
  then show ?case by simp
next
  case (Cons c xs)
  obtain now m env where c: "c = (now, m, env)" by (cases c)
  show ?case unfolding c append_Cons run_checks_Cons
    by (simp add: Cons.IH del: run_checks.simps(2))
qed

text \<open>While the clock stays within the cooldown of the last trigger, nothing is reclaimed
  and the manager does not change.\<close>

lemma run_checks_silent:
  assumes "\<forall>c\<in>set cs. fst c - last_memory_trigger am \<le> 60"
  shows "run_checks has_cb am cs = (am, snd (run_checks has_cb am cs)) \<and>
         reclaim_count (snd (run_checks has_cb am cs)) = 0"
  using assms
proof (induction cs)
  case Nil
  then show ?case by simp
next
  case (Cons c cs)
  obtain now m env where c: "c = (now, m, env)" by (cases c)
  from Cons.prems c have le: "now - last_memory_trigger am \<le> 60" by simp
  from Cons have IH: "run_checks has_cb am cs = (am, snd (run_checks has_cb am cs))"
      "reclaim_count (snd (run_checks has_cb am cs)) = 0" by simp_all
  have am: "fst (snd (check has_cb env now m am)) = am"
    by (simp add: check_silent [OF le])
  have rc: "reclaim_count (snd (snd (check has_cb env now m am))) = 0"
    using le by (simp add: check_reclaim_count)
  show ?case unfolding c run_checks_Cons am using IH rc
    by (metis fst_conv reclaim_count_append add_0 snd_conv)
qed

text \<open>
  C2 (as amended: the gate is \<open>now - last > 60\<close>, strictly).  A cycle at time \<open>t\<close>
  triggers; then any number of cycles \<open>cs\<close>, whatever their memory percent, all at times
  with \<open>now - t \<le> 60\<close>, reclaim nothing, so the run reclaims exactly once; and the first
  later cycle with \<open>now - t > 60\<close> and memory above the threshold reclaims again.
\<close>

theorem memory_cooldown_debounce:
  assumes "90 < memory_pct m0" and "60 < t - last_memory_trigger am"
    and "\<forall>c\<in>set cs. fst c - t \<le> 60"
    and "90 < memory_pct m1" and "60 < now1 - t"
  shows "reclaim_count (snd (run_checks has_cb am ((t, m0, env0) # cs))) = 1 \<and>
         reclaim_count
           (snd (run_checks has_cb am ((t, m0, env0) # cs @ [(now1, m1, env1)]))) = 2"
proof -
  let ?am1 = "am\<lparr>last_trigger := (last_trigger am)(''memory'' \<mapsto> t)\<rparr>"
  have am1: "fst (snd (check has_cb env0 t m0 am)) = ?am1"
    using assms(1,2) by (simp add: check_fires)
  have last: "last_memory_trigger ?am1 = t"
    by (simp add: last_memory_trigger_def)
  have first: "reclaim_count (snd (snd (check has_cb env0 t m0 am))) = 1"
    using assms(1,2) by (simp add: check_reclaim_count)
  have quiet: "run_checks has_cb ?am1 cs = (?am1, snd (run_checks has_cb ?am1 cs))"
     "reclaim_count (snd (run_checks has_cb ?am1 cs)) = 0"
    using run_checks_silent [of cs ?am1 has_cb] assms(3) last by simp_all
  have fst_quiet: "fst (run_checks has_cb ?am1 cs) = ?am1"
    using quiet(1) by (metis fst_conv)
  have again: "reclaim_count (snd (snd (check has_cb env1 now1 m1 ?am1))) = 1"
    using assms(4,5) last by (simp add: check_reclaim_count)
  have one: "reclaim_count (snd (run_checks has_cb am ((t, m0, env0) # cs))) = 1"
    by (simp add: run_checks_Cons am1 first quiet(2) del: run_checks.simps(2))
  have two: "reclaim_count
      (snd (run_checks has_cb am ((t, m0, env0) # cs @ [(now1, m1, env1)]))) = 2"
    by (simp add: run_checks_Cons run_checks_append am1 first quiet(2) fst_quiet again
        del: run_checks.simps(2))
  from one two show ?thesis by simp
qed

theorem memory_cooldown_debounce_witness:
  "reclaim_count (snd (run_checks True (init_alert_manager linux_cleaner)
      ((1000, hot_metrics, quiet_env) #
       [(1010, hot_metrics, quiet_env), (1020, hot_metrics, quiet_env),
        (1030, hot_metrics, quiet_env), (1060, hot_metrics, quiet_env)]))) = 1 \<and>
   reclaim_count (snd (run_checks True (init_alert_manager linux_cleaner)
      ((1000, hot_metrics, quiet_env) #
       [(1010, hot_metrics, quiet_env), (1020, hot_metrics, quiet_env),
        (1030, hot_metrics, quiet_env), (1060, hot_metrics, quiet_env)]
       @ [(1061, hot_metrics, quiet_env)]))) = 2"
  using memory_cooldown_debounce [of hot_metrics 1000 "init_alert_manager linux_cleaner"
      "[(1010, hot_metrics, quiet_env), (1020, hot_metrics, quiet_env),
        (1030, hot_metrics, quiet_env), (1060, hot_metrics, quiet_env)]"
      hot_metrics 1061 True quiet_env quiet_env]
  by (simp add: hot_metrics_def init_alert_manager_def last_memory_trigger_def)

text \<open>
  C2 as stated fails at the boundary: a trigger at \<open>t = 1000\<close>, then a cycle at
  \<open>now = 1060\<close> (so \<open>now - t \<ge> 60\<close>) with memory at 95 percent, and the run still
  reclaims once only.
\<close>

theorem memory_cooldown_boundary:
  "90 < memory_pct hot_metrics \<and> (60::real) \<le> 1060 - 1000 \<and>
   reclaim_count (snd (run_checks True (init_alert_manager linux_cleaner)
      [(1000, hot_metrics, quiet_env), (1060, hot_metrics, quiet_env)])) = 1"
  by (simp add: run_checks_Cons check_reclaim_count hot_metrics_def init_alert_manager_def
      last_memory_trigger_def check_fires del: run_checks.simps(2))

text \<open>
  C4 (as amended).  No exception of the reclamation leaves \<open>check\<close>: it always returns
  its alert list.  On a triggering cycle with a callback, the "skipped" notification is
  emitted exactly when \<open>gc.collect()\<close> raised, and "completed" otherwise, also when the
  platform step raised after \<open>gc.collect()\<close> had returned.
\<close>

theorem check_contains_reclaim_exceptions:
  assumes "90 < memory_pct m" and "60 < now - last_memory_trigger am"
  shows "(\<exists>alerts. fst (check has_cb env now m am) = Inr alerts) \<and>
         (UiCallback CleanupSkipped \<in> set (snd (snd (check True env now m am)))
            \<longleftrightarrow> isl (gc_collect env)) \<and>
         (UiCallback CleanupCompleted \<in> set (snd (snd (check True env now m am)))
            \<longleftrightarrow> \<not> isl (gc_collect env))"
  using assms by (simp add: check_fires)

theorem check_contains_reclaim_exceptions_witness:
  "isl (gc_collect gc_failing_env) \<and>
   fst (check True gc_failing_env 1000 hot_metrics (init_alert_manager linux_cleaner))
     = Inr [HighMemory 95] \<and>
   UiCallback CleanupSkipped
     \<in> set (snd (snd (check True gc_failing_env 1000 hot_metrics
                           (init_alert_manager linux_cleaner)))) \<and>
   UiCallback CleanupCompleted
     \<notin> set (snd (snd (check True gc_failing_env 1000 hot_metrics
                           (init_alert_manager linux_cleaner))))"
  using check_contains_reclaim_exceptions
    [of hot_metrics 1000 "init_alert_manager linux_cleaner" True gc_failing_env]
  by (simp add: check_fires hot_metrics_def init_alert_manager_def last_memory_trigger_def
      gc_failing_env_def quiet_env_def)

text \<open>
  C4 as stated fails: on Windows \<open>psutil.pids()\<close> raises inside \<open>_windows_trim\<close>, the
  exception leaves the platform step and is caught by \<open>clean\<close>, and the cycle reports
  "completed", not "skipped".
\<close>

theorem check_completed_despite_exception:
  "fst (platform_step windows_cleaner pids_failing_env) = Inl (OtherException ''OSError'') \<and>
   check True pids_failing_env 1000 hot_metrics (init_alert_manager windows_cleaner) =
     (Inr [HighMemory 95],
      \<lparr>cleaner = windows_cleaner, last_trigger = [''memory'' \<mapsto> 1000]\<rparr>,
      [SetLastTrigger ''memory'' 1000,
       UiCallback (MemoryDetected 95),
       CleanerClean [LogInfo ''RAM cleanup triggered (best-effort)'', GcCollect, WindowsTrim,
                     LogError (OtherException ''OSError'')],
       UiCallback CleanupCompleted,
       AppendAlert (HighMemory 95)])"
  by (simp add: check_fires hot_metrics_def init_alert_manager_def last_memory_trigger_def
      pids_failing_env_def quiet_env_def windows_cleaner_def platform_step_def windows_trim_def
      clean_def)

text \<open>
  C7.  Whenever the CPU percent of the snapshot is above 85, \<open>check\<close> returns, and its
  alert list starts with the CPU alert, whatever the manager's state and the clock.
\<close>

theorem check_cpu_alert_every_cycle:
  "85 < cpu_pct m \<Longrightarrow>
   \<exists>rest am' evs. check has_cb env now m am = (Inr (HighCpu (cpu_pct m) # rest), am', evs)"
  by (simp add: check_def memory_trigger_eq threshold_cpu_def)

theorem check_cpu_alert_every_cycle_witness:
  "85 < cpu_pct busy_metrics \<and>
   check True quiet_env 1000 busy_metrics
       \<lparr>cleaner = linux_cleaner, last_trigger = [''memory'' \<mapsto> 999]\<rparr> =
     (Inr [HighCpu 97], \<lparr>cleaner = linux_cleaner, last_trigger = [''memory'' \<mapsto> 999]\<rparr>,
      [AppendAlert (HighCpu 97)])"
  using check_cpu_alert_every_cycle
    [of busy_metrics True quiet_env 1000
        "\<lparr>cleaner = linux_cleaner, last_trigger = [''memory'' \<mapsto> 999]\<rparr>"]
  by (simp add: check_silent busy_metrics_def last_memory_trigger_def)

text \<open>
  C8 (as amended).  A fresh memory trigger is a cycle with memory above 90 on which the
  rule has never triggered or its cooldown has elapsed; \<open>now\<close> is the wall clock that
  \<open>check\<close> reads itself, a reading above 60.  On such a cycle \<open>check\<close> does, in this order
  and within the call: the write \<open>last_trigger["memory"] = now\<close>; the "detected"
  notification; the call of the cleaner; the "completed" or "skipped" notification according
  to the cleaner's result; the append of the memory alert.  The two notifications are
  emitted when a \<open>ui_callback\<close> was passed and skipped when it is \<open>None\<close>.
\<close>

theorem check_memory_trigger_order:
  assumes "90 < memory_pct m" and "60 < now"
    and "case last_trigger am ''memory'' of None \<Rightarrow> True | Some t \<Rightarrow> 60 < now - t"
  shows "snd (snd (check has_cb env now m am)) =
      (if 85 < cpu_pct m then [AppendAlert (HighCpu (cpu_pct m))] else [])
      @ [SetLastTrigger ''memory'' now]
      @ (if has_cb then [UiCallback (MemoryDetected (memory_pct m))] else [])
      @ [CleanerClean (snd (clean (cleaner am) env))]
      @ (if has_cb
         then [UiCallback (if fst (clean (cleaner am) env) = Inr True
                           then CleanupCompleted else CleanupSkipped)]
         else [])
      @ [AppendAlert (HighMemory (memory_pct m))]
    \<and> last_trigger (fst (snd (check has_cb env now m am))) ''memory'' = Some now
    \<and> fst (check has_cb env now m am) =
        Inr ((if 85 < cpu_pct m then [HighCpu (cpu_pct m)] else [])
             @ [HighMemory (memory_pct m)])"
proof -
  have "60 < now - last_memory_trigger am"
    using assms(2,3) by (simp add: last_memory_trigger_def split: option.splits)
  with assms(1) show ?thesis by (simp add: check_fires clean_result)
qed

theorem check_memory_trigger_order_witness:
  "90 < memory_pct hot_metrics \<and> (60::real) < 1000 \<and>
   last_trigger (init_alert_manager linux_cleaner) ''memory'' = None \<and>
   snd (snd (check True quiet_env 1000 hot_metrics (init_alert_manager linux_cleaner))) =
     [SetLastTrigger ''memory'' 1000,
      UiCallback (MemoryDetected 95),
      CleanerClean [LogInfo ''RAM cleanup triggered (best-effort)'', GcCollect, LinuxTrim,
                    LogInfo ''Linux malloc_trim executed''],
      UiCallback CleanupCompleted,
      AppendAlert (HighMemory 95)] \<and>
   snd (snd (check True gc_failing_env 1100 hot_metrics
       \<lparr>cleaner = linux_cleaner, last_trigger = [''memory'' \<mapsto> 1000]\<rparr>)) =
     [SetLastTrigger ''memory'' 1100,
      UiCallback (MemoryDetected 95),
      CleanerClean [LogInfo ''RAM cleanup triggered (best-effort)'', GcCollect,
                    LogError (OtherException ''MemoryError'')],
      UiCallback CleanupSkipped,
      AppendAlert (HighMemory 95)]"
  using check_memory_trigger_order
    [of hot_metrics 1000 "init_alert_manager linux_cleaner" True quiet_env]
    check_memory_trigger_order
    [of hot_metrics 1100 "\<lparr>cleaner = linux_cleaner, last_trigger = [''memory'' \<mapsto> 1000]\<rparr>"
        True gc_failing_env]
  by (simp add: hot_metrics_def init_alert_manager_def gc_failing_env_def
      quiet_env_def linux_cleaner_def platform_step_def linux_trim_def clean_def)

text \<open>
  C8 as stated fails when \<open>check\<close> is called without a \<open>ui_callback\<close> (the parameter's
  default): on a fresh trigger neither notification is emitted; the write, the call of
  the cleaner and the append are all that happens.
\<close>

theorem check_without_callback_no_notification:
  "90 < memory_pct hot_metrics \<and>
   last_trigger (init_alert_manager linux_cleaner) ''memory'' = None \<and>
   check False quiet_env 1000 hot_metrics (init_alert_manager linux_cleaner) =
     (Inr [HighMemory 95],
      \<lparr>cleaner = linux_cleaner, last_trigger = [''memory'' \<mapsto> 1000]\<rparr>,
      [SetLastTrigger ''memory'' 1000,
       CleanerClean [LogInfo ''RAM cleanup triggered (best-effort)'', GcCollect, LinuxTrim,
                     LogInfo ''Linux malloc_trim executed''],
       AppendAlert (HighMemory 95)])"
  by (simp add: check_fires hot_metrics_def init_alert_manager_def last_memory_trigger_def
      quiet_env_def linux_cleaner_def platform_step_def linux_trim_def clean_def)

section \<open>Properties of MetricsCollector\<close>

lemma collect_tick: "tick (collect_state env st) = tick st + 1"
  by (simp add: collect_state_def collect_def Let_def scan_def split: prod.splits sum.splits option.splits)

lemma collect_net_sent:
  "net_sent (collect_snapshot env st) =
     real_of_int (bytes_sent (net_io_counters env) - bytes_sent (last_net st)) / elapsed_dt (time_now env) (last_time st)"
  by (simp add: collect_snapshot_def collect_def Let_def split: prod.splits)

lemma collect_net_recv:
  "net_recv (collect_snapshot env st) =
     real_of_int (bytes_recv (net_io_counters env) - bytes_recv (last_net st)) / elapsed_dt (time_now env) (last_time st)"
  by (simp add: collect_snapshot_def collect_def Let_def split: prod.splits)

lemma elapsed_dt_pos: "prev \<le> now \<Longrightarrow> 0 < elapsed_dt now prev"
  by (simp add: elapsed_dt_def Let_def)

lemma collect_no_scan:
  "(tick st + 1) mod 4 \<noteq> 0 \<Longrightarrow>
   collect_calls env st = [] \<and> top_procs (collect_snapshot env st) = cached_top_procs st \<and>
   cached_top_procs (collect_state env st) = cached_top_procs st \<and>
   procs (collect_state env st) = procs st"
  by (simp add: collect_calls_def collect_snapshot_def collect_state_def collect_def Let_def)


lemma read_info_calls: "prefix (s_calls s) (s_calls (snd (read_info env s pid p)))"
  by (simp add: read_info_def Let_def split: sum.splits)

lemma try_body_calls: "prefix (s_calls s) (s_calls (snd (try_body env s p)))"
proof (cases "s_procs s (proc_pid p)")
  case None
  let ?s1 = "s\<lparr>s_procs := (s_procs s)(proc_pid p \<mapsto> p), s_calls := s_calls s @ [CpuPercentCall p]\<rparr>"
  have "prefix (s_calls ?s1) (s_calls (snd (read_info env ?s1 (proc_pid p) p)))"
    by (rule read_info_calls)
  then have "prefix (s_calls s) (s_calls (snd (read_info env ?s1 (proc_pid p) p)))"
    by (simp add: append_prefixD)
  with None show ?thesis
    by (simp add: try_body_def Let_def split: sum.splits)
next
  case (Some q)
  then show ?thesis by (simp add: try_body_def read_info_calls)
qed

lemma scan_one_calls: "prefix (s_calls s) (s_calls (snd (scan_one env s p)))"
  using try_body_calls [of s env p]
  by (cases "try_body env s p") (auto simp: scan_one_def split: option.splits)

lemma scan_loop_calls: "prefix (s_calls s) (s_calls (snd (scan_loop env s ps)))"
proof (induction ps arbitrary: s)
  case Nil
  show ?case by simp
next
  case (Cons p ps)
  obtain r s1 where one: "scan_one env s p = (r, s1)" by (cases "scan_one env s p")
  have p1: "prefix (s_calls s) (s_calls s1)" using scan_one_calls [of s env p] one by simp
  show ?case
  proof (cases r)
    case None
    with one Cons.IH [of s1] p1 show ?thesis by (auto intro: prefix_order.trans)
  next
    case (Some e)
    with one p1 show ?thesis by simp
  qed
qed

lemma scan_procs_calls:
  "prefix [PidsCall, ProcessIterCall] (s_calls (snd (scan_procs env tracked current_pids)))"
  using scan_loop_calls
    [of "\<lparr>s_procs = remove_dead tracked current_pids, s_proc_list = [],
          s_calls = [PidsCall, ProcessIterCall]\<rparr>" env "os_process_iter env"]
  by (simp add: scan_procs_def)

lemma scan_calls: "PidsCall \<in> set (snd (snd (scan env st)))"
proof (cases "os_pids env")
  case (Inl e)
  then show ?thesis by (simp add: scan_def)
next
  case (Inr current_pids)
  obtain r s where loop: "scan_procs env (procs st) current_pids = (r, s)"
    by (cases "scan_procs env (procs st) current_pids")
  have "prefix [PidsCall, ProcessIterCall] (s_calls s)"
    using scan_procs_calls [of env "procs st" current_pids] loop by simp
  then have "PidsCall \<in> set (s_calls s)" by (auto simp: prefix_def)
  with Inr loop show ?thesis by (simp add: scan_def split: option.splits)
qed

lemma scan_top: "fst (scan env st) = cached_top_procs (fst (snd (scan env st)))"
  by (simp add: scan_def split: sum.splits prod.splits option.splits)

lemma collect_scans:
  "PidsCall \<in> set (collect_calls env st) \<longleftrightarrow> (tick st + 1) mod 4 = 0"
proof (cases "(tick st + 1) mod 4 = 0")
  case True
  let ?st1 = "st\<lparr>last_net := net_io_counters env, last_time := time_now env, tick := tick st + 1\<rparr>"
  have "collect_calls env st = snd (snd (scan env ?st1))"
    using True by (simp add: collect_calls_def collect_def Let_def split: prod.splits)
  with True show ?thesis by (simp add: scan_calls)
next
  case False
  then show ?thesis by (simp add: collect_no_scan)
qed

lemma collect_top_cached:
  "top_procs (collect_snapshot env st) = cached_top_procs (collect_state env st)"
proof (cases "(tick st + 1) mod 4 = 0")
  case True
  let ?st1 = "st\<lparr>last_net := net_io_counters env, last_time := time_now env, tick := tick st + 1\<rparr>"
  have "top_procs (collect_snapshot env st) = fst (scan env ?st1)"
       "collect_state env st = fst (snd (scan env ?st1))"
    using True by (simp_all add: collect_snapshot_def collect_state_def collect_def Let_def split: prod.splits)
  then show ?thesis by (simp add: scan_top)
next
  case False
  then show ?thesis by (simp add: collect_no_scan)
qed

lemma collect_all_tick: "tick (collect_all st envs) = tick st + length envs"
  by (induction envs arbitrary: st) (simp_all add: collect_tick)

lemma collect_all_snoc: "collect_all st (envs @ [env]) = collect_state env (collect_all st envs)"
  by (induction envs arbitrary: st) simp_all

text \<open>Between scans the cached list stays what it was.\<close>

lemma collect_all_between:
  assumes "tick st mod 4 = 0" and "length pre < 3"
  shows "cached_top_procs (collect_all st pre) = cached_top_procs st \<and>
         procs (collect_all st pre) = procs st"
  using assms
proof (induction pre rule: rev_induct)
  case Nil
  show ?case by simp
next
  case (snoc env pre)
  then have IH: "cached_top_procs (collect_all st pre) = cached_top_procs st"
     "procs (collect_all st pre) = procs st" by simp_all
  have "tick (collect_all st pre) = tick st + length pre" by (rule collect_all_tick)
  with snoc.prems have "(tick (collect_all st pre) + 1) mod 4 \<noteq> 0"
    by (simp add: mod_Suc) presburger
  from collect_no_scan [OF this, of env] IH show ?case
    by (simp add: collect_all_snoc)
qed

text \<open>
  C5.  Every \<open>collect\<close> adds exactly one to \<open>tick\<close>, scan or no scan, so after
  \<open>n\<close> calls from construction \<open>tick = n\<close>; the process table is queried exactly on
  the calls that make \<open>tick\<close> a multiple of 4, and the other calls make no process-table
  call at all; and each of the up to three calls after a scanning call returns the
  \<open>top_procs\<close> that scanning call returned.
\<close>

theorem scan_throttled:
  "tick (collect_state env st) = tick st + 1 \<and>
   (PidsCall \<in> set (collect_calls env st) \<longleftrightarrow> (tick st + 1) mod 4 = 0) \<and>
   ((tick st + 1) mod 4 \<noteq> 0 \<longrightarrow> collect_calls env st = []) \<and>
   tick (collect_all (init_collector net0 t0) envs) = length envs \<and>
   ((tick st + 1) mod 4 = 0 \<and> length pre < 3 \<longrightarrow>
      collect_calls env' (collect_all (collect_state env st) pre) = [] \<and>
      top_procs (collect_snapshot env' (collect_all (collect_state env st) pre)) =
        top_procs (collect_snapshot env st))"
proof -
  have a: "tick (collect_state env st) = tick st + 1" by (rule collect_tick)
  have b: "PidsCall \<in> set (collect_calls env st) \<longleftrightarrow> (tick st + 1) mod 4 = 0"
    by (rule collect_scans)
  have c: "(tick st + 1) mod 4 \<noteq> 0 \<longrightarrow> collect_calls env st = []"
    by (simp add: collect_no_scan)
  have d: "tick (collect_all (init_collector net0 t0) envs) = length envs"
    by (simp add: collect_all_tick init_collector_def)
  have e: "collect_calls env' (collect_all (collect_state env st) pre) = [] \<and>
      top_procs (collect_snapshot env' (collect_all (collect_state env st) pre)) =
        top_procs (collect_snapshot env st)"
    if scan: "(tick st + 1) mod 4 = 0" and len: "length pre < 3"
  proof -
    let ?st1 = "collect_state env st"
    let ?st2 = "collect_all ?st1 pre"
    have t1: "tick ?st1 mod 4 = 0" using scan by (simp add: collect_tick)
    have keep: "cached_top_procs ?st2 = cached_top_procs ?st1"
      using collect_all_between [OF t1 len] by simp
    have "tick ?st2 = tick ?st1 + length pre" by (rule collect_all_tick)
    with t1 len have ns: "(tick ?st2 + 1) mod 4 \<noteq> 0"
      by (simp add: mod_Suc) presburger
    from collect_no_scan [OF ns, of env'] keep show ?thesis
      by (simp add: collect_top_cached [of env st])
  qed
  have e': "(tick st + 1) mod 4 = 0 \<and> length pre < 3 \<longrightarrow>
      collect_calls env' (collect_all (collect_state env st) pre) = [] \<and>
      top_procs (collect_snapshot env' (collect_all (collect_state env st) pre)) =
        top_procs (collect_snapshot env st)"
    using e by (intro impI) (elim conjE)
  show ?thesis
    by (intro conjI) (rule a, rule b, rule c, rule d, rule e')
qed


theorem scan_throttled_witness:
  "(tick sample_collector + 1) mod 4 = 0 \<and>
   length [sample_env [], sample_env []] < 3 \<and>
   top_procs (collect_snapshot (sample_env [other_proc]) sample_collector) =
     [\<lparr>pi_pid = 7, pi_name = ''python'', pi_cpu_percent = 25, pi_memory_percent = 3\<rparr>] \<and>
   top_procs (collect_snapshot (sample_env [old_proc])
      (collect_all (collect_state (sample_env [other_proc]) sample_collector)
         [sample_env [], sample_env []])) =
     [\<lparr>pi_pid = 7, pi_name = ''python'', pi_cpu_percent = 25, pi_memory_percent = 3\<rparr>]"
  using scan_throttled [of "sample_env [other_proc]" sample_collector net0 t0 "[]"
      "[sample_env [], sample_env []]" "sample_env [old_proc]"]
  by (simp add: sample_collector_def sample_env_def other_proc_def old_proc_def
      collect_snapshot_def collect_def scan_def scan_procs_def scan_one_def try_body_def
      read_info_def remove_dead_def top5_def elapsed_dt_def)

text \<open>
  C1 (as amended).  When the clock has not gone backwards between two \<open>collect\<close> calls,
  each network rate is non-negative whenever its raw counter has not decreased, and it is
  negative whenever the raw counter has decreased: the delta is divided by the elapsed
  time as it is, and a decreasing counter is not treated as a reset.
\<close>

theorem network_rate_sign:
  assumes "last_time st \<le> time_now env"
  shows "(bytes_sent (last_net st) \<le> bytes_sent (net_io_counters env)
            \<longrightarrow> 0 \<le> net_sent (collect_snapshot env st)) \<and>
         (bytes_recv (last_net st) \<le> bytes_recv (net_io_counters env)
            \<longrightarrow> 0 \<le> net_recv (collect_snapshot env st)) \<and>
         (bytes_sent (net_io_counters env) < bytes_sent (last_net st)
            \<longrightarrow> net_sent (collect_snapshot env st) < 0) \<and>
         (bytes_recv (net_io_counters env) < bytes_recv (last_net st)
            \<longrightarrow> net_recv (collect_snapshot env st) < 0)"
proof -
  have pos: "0 < elapsed_dt (time_now env) (last_time st)"
    using assms by (rule elapsed_dt_pos)
  show ?thesis
    using pos by (simp add: collect_net_sent collect_net_recv zero_le_divide_iff divide_less_0_iff)
qed

theorem network_rate_sign_witness:
  "last_time sample_collector \<le> time_now (sample_env []) \<and>
   bytes_recv (last_net sample_collector) \<le> bytes_recv (net_io_counters (sample_env [])) \<and>
   net_recv (collect_snapshot (sample_env []) sample_collector) = 600 \<and>
   bytes_sent (net_io_counters (sample_env [])) < bytes_sent (last_net sample_collector) \<and>
   net_sent (collect_snapshot (sample_env []) sample_collector) < 0"
  using network_rate_sign [of sample_collector "sample_env []"]
  by (simp add: collect_net_recv sample_collector_def sample_env_def elapsed_dt_def)

text \<open>
  C1 as stated fails: the sent counter falls from 1000 to 400 over one second and the
  reported rate is \<open>- 600\<close>.
\<close>

theorem network_rate_negative_on_reset:
  "last_time sample_collector \<le> time_now (sample_env []) \<and>
   bytes_sent (net_io_counters (sample_env [])) < bytes_sent (last_net sample_collector) \<and>
   net_sent (collect_snapshot (sample_env []) sample_collector) = - 600"
  by (simp add: collect_net_sent sample_collector_def sample_env_def elapsed_dt_def)

text \<open>
  C9 (as amended).  Each rate is the counter delta divided by \<open>dt\<close>, where \<open>dt\<close> is the
  elapsed time, replaced by 0.001 when it is exactly 0.  The divisor is therefore never
  0, and the rate equals \<open>(current - previous) / max(elapsed, 0.001)\<close> when the elapsed
  time is 0 or at least 0.001.
\<close>

theorem network_rate_divisor:
  "net_sent (collect_snapshot env st) =
     real_of_int (bytes_sent (net_io_counters env) - bytes_sent (last_net st))
       / elapsed_dt (time_now env) (last_time st) \<and>
   net_recv (collect_snapshot env st) =
     real_of_int (bytes_recv (net_io_counters env) - bytes_recv (last_net st))
       / elapsed_dt (time_now env) (last_time st) \<and>
   elapsed_dt (time_now env) (last_time st) \<noteq> 0 \<and>
   (time_now env = last_time st \<longrightarrow> elapsed_dt (time_now env) (last_time st) = 0.001) \<and>
   (time_now env = last_time st \<or> 0.001 \<le> time_now env - last_time st \<longrightarrow>
      net_sent (collect_snapshot env st) =
        spec_rate (bytes_sent (net_io_counters env)) (bytes_sent (last_net st))
          (time_now env - last_time st) \<and>
      net_recv (collect_snapshot env st) =
        spec_rate (bytes_recv (net_io_counters env)) (bytes_recv (last_net st))
          (time_now env - last_time st))"
  by (auto simp: collect_net_sent collect_net_recv elapsed_dt_def spec_rate_def Let_def max_def)

theorem network_rate_divisor_witness:
  "time_now ((sample_env [])\<lparr>time_now := 100\<rparr>) = last_time sample_collector \<and>
   elapsed_dt (time_now ((sample_env [])\<lparr>time_now := 100\<rparr>)) (last_time sample_collector) = 0.001 \<and>
   net_recv (collect_snapshot ((sample_env [])\<lparr>time_now := 100\<rparr>) sample_collector) = 600000 \<and>
   spec_rate 5600 5000 0 = 600000"
  using network_rate_divisor [of "(sample_env [])\<lparr>time_now := 100\<rparr>" sample_collector]
  by (simp add: sample_collector_def sample_env_def spec_rate_def)

text \<open>
  C9 as stated fails for an elapsed time strictly between 0 and 0.001: after half a
  millisecond the code divides by 0.0005, the formula with \<open>max\<close> by 0.001.
\<close>

theorem network_rate_short_interval:
  "time_now fast_env - last_time sample_collector = 1 / 2000 \<and>
   net_sent (collect_snapshot fast_env sample_collector) = 400000 \<and>
   spec_rate (bytes_sent (net_io_counters fast_env)) (bytes_sent (last_net sample_collector))
      (time_now fast_env - last_time sample_collector) = 200000"
  by (simp add: collect_net_sent fast_env_def sample_collector_def sample_env_def elapsed_dt_def
      spec_rate_def)

text \<open>
  C10.  After construction \<open>tick\<close> is 0 and the cached list is empty; the first three
  \<open>collect\<close> calls make no process-table call and return the empty \<open>top_procs\<close>;
  the fourth call scans.
\<close>

theorem first_three_calls_no_scan:
  "tick (init_collector net0 t0) = 0 \<and>
   cached_top_procs (init_collector net0 t0) = [] \<and>
   collect_calls e1 (init_collector net0 t0) = [] \<and>
   top_procs (collect_snapshot e1 (init_collector net0 t0)) = [] \<and>
   collect_calls e2 (collect_all (init_collector net0 t0) [e1]) = [] \<and>
   top_procs (collect_snapshot e2 (collect_all (init_collector net0 t0) [e1])) = [] \<and>
   collect_calls e3 (collect_all (init_collector net0 t0) [e1, e2]) = [] \<and>
   top_procs (collect_snapshot e3 (collect_all (init_collector net0 t0) [e1, e2])) = [] \<and>
   PidsCall \<in> set (collect_calls e4 (collect_all (init_collector net0 t0) [e1, e2, e3]))"
proof -
  let ?st0 = "init_collector net0 t0"
  have t0: "tick ?st0 mod 4 = 0" and c0: "cached_top_procs ?st0 = []"
    by (simp_all add: init_collector_def)
  have quiet: "collect_calls env (collect_all ?st0 pre) = [] \<and>
               top_procs (collect_snapshot env (collect_all ?st0 pre)) = []"
    if "length pre < 3" for env pre
  proof -
    have "tick (collect_all ?st0 pre) = length pre"
      by (simp add: collect_all_tick init_collector_def)
    with that have "(tick (collect_all ?st0 pre) + 1) mod 4 \<noteq> 0" by simp
    from collect_no_scan [OF this, of env] collect_all_between [OF t0 that] c0
    show ?thesis by simp
  qed
  have "tick (collect_all ?st0 [e1, e2, e3]) = 3"
    by (simp add: collect_tick init_collector_def)
  then have fourth: "PidsCall \<in> set (collect_calls e4 (collect_all ?st0 [e1, e2, e3]))"
    by (simp add: collect_scans)
  from quiet [of "[]" e1] quiet [of "[e1]" e2] quiet [of "[e1, e2]" e3] fourth
  show ?thesis by (simp add: init_collector_def)
qed

subsection \<open>The scan loop\<close>



















subsection \<open>Dead pids and reassigned pids\<close>




















end
